theory Spec2Isabelle
  imports Main "HOL-Library.Word"
begin

section \<open>Python values of the JSON tree explorer\<close>

text \<open>
  The program (\<^verbatim>\<open>src/json_debug.py\<close>, class \<^verbatim>\<open>JsonTreeExplorer\<close>) keeps the
  document that \<^verbatim>\<open>json.load\<close> returned in \<^verbatim>\<open>self.current_json\<close>. Such a value is
  \<^verbatim>\<open>None\<close>, a \<^verbatim>\<open>bool\<close>, an \<^verbatim>\<open>int\<close>, a \<^verbatim>\<open>float\<close>, a \<^verbatim>\<open>str\<close>, a
  \<^verbatim>\<open>list\<close> or a \<^verbatim>\<open>dict\<close> with string keys. Python's \<^verbatim>\<open>None\<close> and JSON's
  \<^verbatim>\<open>null\<close> are the same value, \<open>JNull\<close>.

  A \<open>string\<close> stands for a Python \<^verbatim>\<open>str\<close> whose characters have code points below
  256: the character \<open>c\<close> is \<^verbatim>\<open>chr(of_char c)\<close>. Floats are kept abstract (the type
  parameter \<open>'f\<close>); the program only ever prints them. A \<^verbatim>\<open>dict\<close> is the list of its
  items in insertion order.
\<close>

datatype 'f json =
    JNull
  | JBool bool
  | JInt int
  | JFloat 'f
  | JStr string
  | JArr "'f json list"
  | JObj "(string \<times> 'f json) list"

text \<open>
  The exceptions that the modelled statements can raise. \<open>BackendError\<close> stands for
  whatever the imaging and PDF libraries raise on data they cannot read.
\<close>

datatype exn =
    KeyError
  | IndexError
  | TypeError
  | ValueError
  | AttributeError
  | OSError
  | BackendError

type_synonym bytes = "8 word list"

subsection \<open>Built-in string operations\<close>

text \<open>
  \<^verbatim>\<open>s.split(sep)\<close> for a one-character separator. The result is never an empty
  list, so the first branch of the \<open>case\<close> is never taken.
\<close>

fun split :: "char \<Rightarrow> string \<Rightarrow> string list" where
  "split sep [] = [[]]"
| "split sep (c # cs) =
     (if c = sep then [] # split sep cs
      else (case split sep cs of
              [] \<Rightarrow> [[c]]
            | w # ws \<Rightarrow> (c # w) # ws))"

text \<open>
  \<^verbatim>\<open>str.isdigit\<close>: the string is not empty and every character has the Unicode property
  Digit. Below code point 256 these are \<^verbatim>\<open>0\<close> to \<^verbatim>\<open>9\<close> and the superscripts
  two, three and one (code points 178, 179 and 185). Only the first ten are decimal
  digits, which is what \<^verbatim>\<open>int\<close> accepts.
\<close>

definition is_decimal :: "char \<Rightarrow> bool" where
  "is_decimal c = (48 \<le> (of_char c :: nat) \<and> (of_char c :: nat) \<le> 57)"

definition is_digit_char :: "char \<Rightarrow> bool" where
  "is_digit_char c =
     (is_decimal c \<or> (of_char c :: nat) = 178 \<or> (of_char c :: nat) = 179
      \<or> (of_char c :: nat) = 185)"

definition isdigit :: "string \<Rightarrow> bool" where
  "isdigit s = (s \<noteq> [] \<and> list_all is_digit_char s)"

text \<open>
  \<^verbatim>\<open>int(s)\<close> for a string: surrounding whitespace is dropped, one sign is allowed, then
  decimal digits in which single underscores may separate digits. \<open>None\<close> stands for
  \<^verbatim>\<open>ValueError\<close>. The whitespace that \<^verbatim>\<open>int\<close> drops is, below code point 256, the
  code points 9 to 13, 32, 133 and 160; the separators 28 to 31, which \<^verbatim>\<open>str.isspace\<close>
  accepts, are not dropped. (The interpreter's limit on the number of digits of one
  conversion is not modelled: integers are unbounded.)
\<close>

definition is_space :: "char \<Rightarrow> bool" where
  "is_space c =
     (let n = (of_char c :: nat)
      in (9 \<le> n \<and> n \<le> 13) \<or> n = 32 \<or> n = 133 \<or> n = 160)"

definition strip :: "string \<Rightarrow> string" where
  "strip s = rev (dropWhile is_space (rev (dropWhile is_space s)))"

definition digit_val :: "char \<Rightarrow> nat" where
  "digit_val c = (of_char c :: nat) - 48"

fun scan_digits :: "string \<Rightarrow> nat \<Rightarrow> nat option" where
  "scan_digits [] acc = Some acc"
| "scan_digits (c # cs) acc =
     (if is_decimal c then scan_digits cs (10 * acc + digit_val c)
      else if c = CHR ''_'' then
        (case cs of
           [] \<Rightarrow> None
         | d # ds \<Rightarrow> if is_decimal d then scan_digits ds (10 * acc + digit_val d) else None)
      else None)"

definition parse_nat :: "string \<Rightarrow> nat option" where
  "parse_nat s =
     (case s of
        [] \<Rightarrow> None
      | c # cs \<Rightarrow> if is_decimal c then scan_digits cs (digit_val c) else None)"

definition py_int :: "string \<Rightarrow> int option" where
  "py_int s =
     (case strip s of
        [] \<Rightarrow> None
      | c # cs \<Rightarrow>
          if c = CHR ''-'' then map_option (\<lambda>n. - int n) (parse_nat cs)
          else if c = CHR ''+'' then map_option int (parse_nat cs)
          else map_option int (parse_nat (c # cs)))"

subsection \<open>Subscription\<close>

text \<open>
  \<^verbatim>\<open>xs[i]\<close> on a sequence: a negative index counts from the end, an index out of range
  raises \<^verbatim>\<open>IndexError\<close>.
\<close>

definition seq_get :: "'a list \<Rightarrow> int \<Rightarrow> exn + 'a" where
  "seq_get xs i =
     (if 0 \<le> i \<and> i < int (length xs) then Inr (xs ! nat i)
      else if i < 0 \<and> - int (length xs) \<le> i then Inr (xs ! nat (int (length xs) + i))
      else Inl IndexError)"

text \<open>
  \<^verbatim>\<open>current[i]\<close> with an \<^verbatim>\<open>int\<close>. A dict that \<^verbatim>\<open>json.load\<close> built has string keys
  only, so no integer is a key of it. A string yields the one-character string at that
  position. Numbers, booleans and \<^verbatim>\<open>None\<close> are not subscriptable.
\<close>

fun getitem_int :: "'f json \<Rightarrow> int \<Rightarrow> exn + 'f json" where
  "getitem_int (JArr xs) i = seq_get xs i"
| "getitem_int (JObj kvs) i = Inl KeyError"
| "getitem_int (JStr s) i = map_sum id (\<lambda>c. JStr [c]) (seq_get s i)"
| "getitem_int v i = Inl TypeError"

text \<open>
  \<^verbatim>\<open>current[key]\<close> with a \<^verbatim>\<open>str\<close>: a look-up in a dict, \<^verbatim>\<open>TypeError\<close> on
  everything else (list and string indices must be integers).
\<close>

fun getitem_str :: "'f json \<Rightarrow> string \<Rightarrow> exn + 'f json" where
  "getitem_str (JObj kvs) key =
     (case map_of kvs key of None \<Rightarrow> Inl KeyError | Some v \<Rightarrow> Inr v)"
| "getitem_str v key = Inl TypeError"

section \<open>Path resolution\<close>

text \<open>
  \<^verbatim>\<open>get_value_at_path\<close> (lines 129 to 147). \<open>step\<close> is the body of the
  \<^verbatim>\<open>try\<close>: a segment for which \<^verbatim>\<open>isdigit\<close> holds is converted with \<^verbatim>\<open>int\<close> and
  used as an integer subscript, whatever the current value is; any other segment is used
  as a string subscript. \<open>walk\<close> is the \<^verbatim>\<open>for\<close> loop: empty segments are skipped,
  \<^verbatim>\<open>KeyError\<close> and \<^verbatim>\<open>IndexError\<close> end the function with \<^verbatim>\<open>return None\<close>, every
  other exception leaves the function (\<open>Inl\<close>).
\<close>

definition step :: "'f json \<Rightarrow> string \<Rightarrow> exn + 'f json" where
  "step current part =
     (if isdigit part then
        (case py_int part of
           None \<Rightarrow> Inl ValueError
         | Some i \<Rightarrow> getitem_int current i)
      else getitem_str current part)"

fun walk :: "'f json \<Rightarrow> string list \<Rightarrow> exn + 'f json" where
  "walk current [] = Inr current"
| "walk current (part # parts) =
     (if part = [] then walk current parts
      else
        (case step current part of
           Inr v \<Rightarrow> walk v parts
         | Inl KeyError \<Rightarrow> Inr JNull
         | Inl IndexError \<Rightarrow> Inr JNull
         | Inl e \<Rightarrow> Inl e))"

definition get_value_at_path :: "'f json \<Rightarrow> string \<Rightarrow> exn + 'f json" where
  "get_value_at_path current_json path =
     (if path = [] then Inr current_json
      else walk current_json (split (CHR ''/'') path))"

text \<open>
  The non-empty segments of a path: what the loop of \<^verbatim>\<open>get_value_at_path\<close> looks at.
\<close>

definition segments :: "string \<Rightarrow> string list" where
  "segments path = filter (\<lambda>p. p \<noteq> []) (split (CHR ''/'') path)"

text \<open>
  \<open>reaches doc ps v\<close>: the loop, started on \<open>doc\<close>, has consumed the segments \<open>ps\<close>
  without leaving the function and holds \<open>v\<close> in \<^verbatim>\<open>current\<close>. (A proof device: it
  tells a value that was reached from the \<^verbatim>\<open>None\<close> of an early return.)
\<close>

definition reaches :: "'f json \<Rightarrow> string list \<Rightarrow> 'f json \<Rightarrow> bool" where
  "reaches doc ps v = (\<forall>qs. walk doc (ps @ qs) = walk v qs)"

section \<open>Tree population\<close>

text \<open>
  The \<^verbatim>\<open>ttk.Treeview\<close> is a forest of items. An item has a text, one value (the path),
  a tuple of tags and children in insertion order. The widget is taken to store and to
  return texts and paths unchanged. \<open>origin\<close> is not a field of the widget: it records
  the JSON value for which \<^verbatim>\<open>populate_tree\<close> made the \<^verbatim>\<open>insert\<close> call (\<^verbatim>\<open>value\<close>
  for an entry of a dict or list, \<^verbatim>\<open>data\<close> for a leaf), so that "the value a node was
  built from" can be stated.
\<close>

datatype 'f item =
  Item (label: string) (pathval: string) (tags: "string list") (origin: "'f json")
       (kids: "'f item list")

text \<open>\<^verbatim>\<open>str(n)\<close> for a non-negative and for any integer.\<close>

definition digit_char :: "nat \<Rightarrow> char" where
  "digit_char d = char_of (48 + d)"

fun str_nat :: "nat \<Rightarrow> string" where
  "str_nat n = (if n < 10 then [digit_char n] else str_nat (n div 10) @ [digit_char (n mod 10)])"

declare str_nat.simps [simp del]

definition str_int :: "int \<Rightarrow> string" where
  "str_int i = (if i < 0 then CHR ''-'' # str_nat (nat (- i)) else str_nat (nat i))"

text \<open>
  \<^verbatim>\<open>str(data)\<close> in the \<^verbatim>\<open>else\<close> branch of \<^verbatim>\<open>populate_tree\<close>, where \<^verbatim>\<open>data\<close> is
  neither a dict nor a list. \<open>fstr\<close> is the text of a float. The last equation is never
  used by \<open>populate_tree\<close>.
\<close>

fun py_str :: "('f \<Rightarrow> string) \<Rightarrow> 'f json \<Rightarrow> string" where
  "py_str fstr JNull = ''None''"
| "py_str fstr (JBool b) = (if b then ''True'' else ''False'')"
| "py_str fstr (JInt i) = str_int i"
| "py_str fstr (JFloat x) = fstr x"
| "py_str fstr (JStr s) = s"
| "py_str fstr v = []"

text \<open>Lines 124 to 126: a preview longer than 50 characters is cut to 47 and three dots.\<close>

definition preview_of :: "string \<Rightarrow> string" where
  "preview_of s = (if length s > 50 then take 47 s @ ''...'' else s)"

text \<open>\<^verbatim>\<open>f"{path}/{key}" if path else key\<close> (lines 112 and 118).\<close>

definition join_path :: "string \<Rightarrow> string \<Rightarrow> string" where
  "join_path path seg = (if path \<noteq> [] then path @ ''/'' @ seg else seg)"

text \<open>
  \<^verbatim>\<open>populate_tree\<close> (lines 108 to 127) returns the items that the call inserts under
  \<^verbatim>\<open>parent\<close>, in order. \<open>populate_dict\<close> is the loop over \<^verbatim>\<open>data.items()\<close>,
  \<open>populate_list\<close> the loop over \<^verbatim>\<open>enumerate(data)\<close> with the running index. Items
  are created without tags.
\<close>

fun populate_tree :: "('f \<Rightarrow> string) \<Rightarrow> 'f json \<Rightarrow> string \<Rightarrow> 'f item list"
and populate_dict :: "('f \<Rightarrow> string) \<Rightarrow> (string \<times> 'f json) list \<Rightarrow> string \<Rightarrow> 'f item list"
and populate_list :: "('f \<Rightarrow> string) \<Rightarrow> 'f json list \<Rightarrow> nat \<Rightarrow> string \<Rightarrow> 'f item list"
where
  "populate_tree fstr (JObj kvs) path = populate_dict fstr kvs path"
| "populate_tree fstr (JArr xs) path = populate_list fstr xs 0 path"
| "populate_tree fstr data path = [Item (preview_of (py_str fstr data)) path [] data []]"
| "populate_dict fstr [] path = []"
| "populate_dict fstr ((key, v) # rest) path =
     Item key (join_path path key) [] v (populate_tree fstr v (join_path path key))
       # populate_dict fstr rest path"
| "populate_list fstr [] index path = []"
| "populate_list fstr (v # rest) index path =
     Item (''['' @ str_nat index @ '']'') (join_path path (str_nat index)) [] v
          (populate_tree fstr v (join_path path (str_nat index)))
       # populate_list fstr rest (index + 1) path"

text \<open>
  \<^verbatim>\<open>get_all_items\<close> (lines 208 to 214): the children of an item, then what the call
  returns for each child. \<open>items_below\<close> is the call on an item, \<open>get_all_items\<close> the
  call on the root \<^verbatim>\<open>""\<close>, whose children are the top-level items.
\<close>

fun items_below :: "'f item \<Rightarrow> 'f item list" where
  "items_below (Item t p tg v children) = children @ concat (map items_below children)"

definition get_all_items :: "'f item list \<Rightarrow> 'f item list" where
  "get_all_items roots = roots @ concat (map items_below roots)"

text \<open>
  What \<^verbatim>\<open>json.load\<close> can return: the keys of every dict are distinct (of a repeated
  key the parser keeps one entry).
\<close>

fun loaded :: "'f json \<Rightarrow> bool" where
  "loaded (JObj kvs) = (distinct (map fst kvs) \<and> list_all (\<lambda>kv. loaded (snd kv)) kvs)"
| "loaded (JArr xs) = list_all loaded xs"
| "loaded v = True"

text \<open>
  A key that the path format can carry: not empty, without the separator, and not one
  that \<^verbatim>\<open>isdigit\<close> accepts. \<open>plain_keys\<close>: every key of every dict in the document is
  such a key.
\<close>

definition plain_key :: "string \<Rightarrow> bool" where
  "plain_key k = (k \<noteq> [] \<and> CHR ''/'' \<notin> set k \<and> \<not> isdigit k)"

fun plain_keys :: "'f json \<Rightarrow> bool" where
  "plain_keys (JObj kvs) = list_all (\<lambda>kv. plain_key (fst kv) \<and> plain_keys (snd kv)) kvs"
| "plain_keys (JArr xs) = list_all plain_keys xs"
| "plain_keys v = True"

text \<open>
  \<open>resolves_all doc items\<close>: the path stored on every item of the forest \<open>items\<close>
  resolves in \<open>doc\<close> to the value the item was built from.
\<close>

definition resolves_all :: "'f json \<Rightarrow> 'f item list \<Rightarrow> bool" where
  "resolves_all doc items =
     list_all (\<lambda>n. get_value_at_path doc (pathval n) = Inr (origin n)) (get_all_items items)"

section \<open>Search\<close>

text \<open>
  \<^verbatim>\<open>str.lower\<close> on code points below 256: the letters \<^verbatim>\<open>A\<close> to \<^verbatim>\<open>Z\<close> and
  the capital letters of the range 192 to 222 (215, the multiplication sign, is not a
  letter) move up by 32; everything else stays.
\<close>

definition lower_char :: "char \<Rightarrow> char" where
  "lower_char c =
     (let n = (of_char c :: nat)
      in if (65 \<le> n \<and> n \<le> 90) \<or> (192 \<le> n \<and> n \<le> 214) \<or> (216 \<le> n \<and> n \<le> 222)
         then char_of (n + 32) else c)"

definition lower :: "string \<Rightarrow> string" where
  "lower s = map lower_char s"

text \<open>\<^verbatim>\<open>sub in s\<close> on strings: \<^verbatim>\<open>sub\<close> starts at some position of \<^verbatim>\<open>s\<close>.\<close>

definition starts_with :: "string \<Rightarrow> string \<Rightarrow> bool" where
  "starts_with sub s = (take (length sub) s = sub)"

fun contains :: "string \<Rightarrow> string \<Rightarrow> bool" where
  "contains sub [] = (sub = [])"
| "contains sub (c # cs) = (starts_with sub (c # cs) \<or> contains sub cs)"

text \<open>
  \<^verbatim>\<open>on_search_change\<close> (lines 184 to 206). The first loop gives every item of
  \<^verbatim>\<open>get_all_items()\<close> the empty tuple of tags (\<open>clear_tags\<close>, applied to every
  top-level item). With an empty search text the function returns. Otherwise
  \<open>search_in_tree\<close> visits every item: an item whose lower-cased text contains the
  search text gets the one tag \<^verbatim>\<open>search_match\<close>, then its children are visited.
  Scrolling (\<^verbatim>\<open>tree.see\<close>) is not modelled.
\<close>

fun clear_tags :: "'f item \<Rightarrow> 'f item" where
  "clear_tags (Item t p tg v children) = Item t p [] v (map clear_tags children)"

fun search_in_tree :: "string \<Rightarrow> 'f item \<Rightarrow> 'f item" where
  "search_in_tree search_text (Item t p tg v children) =
     Item t p (if contains search_text (lower t) then [''search_match''] else tg) v
          (map (search_in_tree search_text) children)"

definition on_search_change :: "string \<Rightarrow> 'f item list \<Rightarrow> 'f item list" where
  "on_search_change search_var roots =
     (let search_text = lower search_var;
          cleared = map clear_tags roots
      in if search_text = [] then cleared
         else map (search_in_tree search_text) cleared)"

text \<open>
  A forest with tags left from an earlier search, for the concrete instances below.
\<close>

definition example_forest :: "unit item list" where
  "example_forest =
     [Item ''names'' ''names'' [''search_match''] JNull
        [Item ''[0]'' ''names/0'' [] (JStr ''a.png'')
           [Item ''a.png'' ''names/0'' [''search_match''] (JStr ''a.png'') []],
         Item ''[1]'' ''names/1'' [] (JStr ''B.pdf'')
           [Item ''B.pdf'' ''names/1'' [] (JStr ''B.pdf'') []]]]"

section \<open>Selection and document routing\<close>

text \<open>The two keys that pair file names with base64 payloads.\<close>

definition names_key :: string where
  "names_key = ''nombre_documentos''"

definition payloads_key :: string where
  "payloads_key = ''lista_documentos''"

text \<open>Sequencing of statements that may raise: the first exception ends the sequence.\<close>

definition and_then :: "exn + 'a \<Rightarrow> ('a \<Rightarrow> exn + 'b) \<Rightarrow> exn + 'b" where
  "and_then r f = (case r of Inl e \<Rightarrow> Inl e | Inr x \<Rightarrow> f x)"



text \<open>
  What \<^verbatim>\<open>on_tree_select\<close> (lines 149 to 182) does with the path of the selected
  item: nothing (\<open>NoAction\<close>, the value at the path is \<^verbatim>\<open>None\<close>), a call
  \<^verbatim>\<open>render_document(value, filename)\<close> (\<open>Document filename value\<close>), or the display of
  the value as text (\<open>PlainValue\<close>).
\<close>

datatype 'f selection =
    NoAction
  | Document (filename: "'f json") (payload: "'f json")
  | PlainValue "'f json"



text \<open>
  The example document of the specification, with a second dict under \<^verbatim>\<open>meta\<close> that
  also has an entry named like the names key; below that entry are a list of three
  numbers and an entry with the key \<^verbatim>\<open>-1\<close>.
\<close>

definition example_entries :: "(string \<times> unit json) list" where
  "example_entries =
     [(''nombre_documentos'', JArr [JStr ''a.png'', JStr ''b.pdf'']),
      (''lista_documentos'', JArr [JStr ''AA=='', JStr ''QQ=='']),
      (''meta'', JObj [(''x'', JInt 1),
                       (''nombre_documentos'',
                          JObj [(''y'', JArr [JInt 5, JInt 6, JInt 7]), (''-1'', JInt 8)])])]"

section \<open>The document view: state, environment and operations\<close>

text \<open>
  The fields of \<^verbatim>\<open>JsonTreeExplorer\<close> that the document operations read and write,
  the file system as far as they touch it (\<open>disk\<close>: the content of each existing
  file), and what they show: the text view, the selected notebook tab, the page label,
  the state of the two page buttons and the message boxes raised so far. The canvas is
  not modelled.
\<close>

datatype backend =
    NoDocument
  | PhotoImage
  | FitzDocument nat

datatype dialog =
    ShowError string exn
  | ShowInfo string

record 'f app =
  current_json :: "'f json"
  temp_files :: "string list"
  disk :: "string \<Rightarrow> bytes option"
  current_document :: backend
  current_page :: int
  total_pages :: int
  current_doc_name :: string
  value_display :: string
  notebook_tab :: nat
  page_label :: string
  prev_enabled :: bool
  next_enabled :: bool
  dialogs :: "dialog list"

text \<open>
  What the libraries and the operating system answer. \<open>b64decode\<close>:
  \<^verbatim>\<open>base64.b64decode\<close> on a string. \<open>mkstemp\<close>: the path that
  \<^verbatim>\<open>tempfile.NamedTemporaryFile(delete=False, suffix=...)\<close> creates, given the files
  that exist and the suffix, or its failure. \<open>remove_ok\<close>: whether \<^verbatim>\<open>os.remove\<close>
  succeeds on a path. \<open>open_wb_ok\<close>: whether \<^verbatim>\<open>open(path, 'wb')\<close> succeeds.
  \<open>image_ok\<close>: whether the imaging library reads the bytes. \<open>pdf_pages\<close>: the number
  of pages of the bytes as a PDF, if the PDF library opens them.
\<close>

record env =
  b64decode :: "string \<Rightarrow> exn + bytes"
  mkstemp :: "(string \<Rightarrow> bytes option) \<Rightarrow> string \<Rightarrow> exn + string"
  remove_ok :: "string \<Rightarrow> bool"
  open_wb_ok :: "string \<Rightarrow> bool"
  image_ok :: "bytes \<Rightarrow> bool"
  pdf_pages :: "bytes \<Rightarrow> nat option"

text \<open>\<^verbatim>\<open>messagebox.showerror\<close> with the text before the colon and the exception.\<close>

definition showerror :: "string \<Rightarrow> exn \<Rightarrow> 'f app \<Rightarrow> 'f app" where
  "showerror msg e s = s\<lparr>dialogs := dialogs s @ [ShowError msg e]\<rparr>"

text \<open>
  \<^verbatim>\<open>cleanup_temp_files\<close> (lines 387 to 395). Each tracked path that exists is
  removed; a failing removal is caught (and printed), the file stays. Afterwards no path
  is tracked.
\<close>

fun remove_all :: "env \<Rightarrow> string list \<Rightarrow> (string \<Rightarrow> bytes option) \<Rightarrow> (string \<Rightarrow> bytes option)" where
  "remove_all E [] d = d"
| "remove_all E (temp_file # rest) d =
     remove_all E rest
       (if d temp_file \<noteq> None \<and> remove_ok E temp_file then d(temp_file := None) else d)"

definition cleanup_temp_files :: "env \<Rightarrow> 'f app \<Rightarrow> 'f app" where
  "cleanup_temp_files E s =
     s\<lparr>disk := remove_all E (temp_files s) (disk s), temp_files := []\<rparr>"

text \<open>
  \<^verbatim>\<open>update_page_controls\<close> (lines 251 to 258): the label shows
  \<^verbatim>\<open>current_page + 1\<close>, so \<^verbatim>\<open>current_page\<close> counts from 0.
\<close>

definition update_page_controls :: "'f app \<Rightarrow> 'f app" where
  "update_page_controls s =
     s\<lparr>page_label := ''Page: '' @ str_int (current_page s + 1) @ ''/'' @ str_int (total_pages s),
       prev_enabled := (current_page s + 1 > 1),
       next_enabled := (current_page s + 1 < total_pages s)\<rparr>"

text \<open>
  \<^verbatim>\<open>show_current_page\<close> (lines 274 to 309): nothing unless a PDF is open. The PDF
  library counts a negative page number from the end, so \<^verbatim>\<open>current_document[current_page]\<close>
  raises \<^verbatim>\<open>IndexError\<close> exactly when the page number is not below the page count; the
  error is reported. (The program never makes \<^verbatim>\<open>current_page\<close> negative.)
\<close>

definition show_current_page :: "'f app \<Rightarrow> 'f app" where
  "show_current_page s =
     (case current_document s of
        FitzDocument n \<Rightarrow>
          if current_page s < int n
          then update_page_controls s
          else showerror ''Failed to show page'' IndexError s
      | other \<Rightarrow> s)"

text \<open>\<^verbatim>\<open>render_pdf\<close> (lines 341 to 353).\<close>

definition render_pdf :: "env \<Rightarrow> string \<Rightarrow> 'f app \<Rightarrow> 'f app" where
  "render_pdf E pdf_path s =
     (case disk s pdf_path of
        None \<Rightarrow> showerror ''Failed to render PDF'' OSError s
      | Some content \<Rightarrow>
          (case pdf_pages E content of
             None \<Rightarrow> showerror ''Failed to render PDF'' BackendError s
           | Some n \<Rightarrow>
               (show_current_page
                  (s\<lparr>current_document := FitzDocument n, total_pages := int n,
                     current_page := 0\<rparr>))
               \<lparr>notebook_tab := 1\<rparr>))"

text \<open>
  \<^verbatim>\<open>render_image\<close> (lines 355 to 385). After the image is shown, line 378 sets
  \<^verbatim>\<open>current_page\<close> to 1 and line 379 sets \<^verbatim>\<open>total_pages\<close> to 1.
\<close>

definition render_image :: "env \<Rightarrow> string \<Rightarrow> 'f app \<Rightarrow> 'f app" where
  "render_image E image_path s =
     (case disk s image_path of
        None \<Rightarrow> showerror ''Failed to render image'' OSError s
      | Some content \<Rightarrow>
          if image_ok E content then
            (update_page_controls
               (s\<lparr>current_document := PhotoImage, current_page := 1, total_pages := 1\<rparr>))
            \<lparr>notebook_tab := 1\<rparr>
          else showerror ''Failed to render image'' BackendError s)"

text \<open>
  \<^verbatim>\<open>os.path.splitext(filename)[1]\<close> (POSIX): the part of the last path component from
  its last dot on, unless only dots precede that dot.
\<close>

definition splitext_ext :: "string \<Rightarrow> string" where
  "splitext_ext p =
     (let pieces = split (CHR ''.'') (last (split (CHR ''/'') p))
      in if 2 \<le> length pieces \<and> list_ex (\<lambda>piece. piece \<noteq> []) (butlast pieces)
         then CHR ''.'' # last pieces else [])"

definition image_exts :: "string list" where
  "image_exts = [''.jpg'', ''.jpeg'', ''.png'', ''.gif'', ''.bmp'']"

text \<open>The two library calls on values of the document: both need a string.\<close>

fun py_b64decode :: "env \<Rightarrow> 'f json \<Rightarrow> exn + bytes" where
  "py_b64decode E (JStr s) = b64decode E s"
| "py_b64decode E v = Inl TypeError"

fun file_ext_of :: "'f json \<Rightarrow> exn + string" where
  "file_ext_of (JStr fname) = Inr (lower (splitext_ext fname))"
| "file_ext_of v = Inl TypeError"

definition unsupported_message :: "string \<Rightarrow> string" where
  "unsupported_message file_ext =
     ''File type '' @ file_ext @ '' preview not supported.'' @ [CHR 0x0A]
     @ ''Use the Save Document button to save and open externally.''"

text \<open>
  \<^verbatim>\<open>render_document\<close> (lines 311 to 339). The order is that of the source: clean up,
  decode, take the extension, create and write the temporary file and track it, set the
  document name, then branch on the extension. Every exception is reported with a
  message box. (Creating and writing the temporary file is one step here: it either
  fails as a whole or leaves the file with the decoded bytes.)
\<close>

definition render_document :: "env \<Rightarrow> 'f json \<Rightarrow> 'f json \<Rightarrow> 'f app \<Rightarrow> 'f app" where
  "render_document E base64_data fname s0 =
     (let s = cleanup_temp_files E s0
      in case py_b64decode E base64_data of
           Inl e \<Rightarrow> showerror ''Failed to render document'' e s
         | Inr file_data \<Rightarrow>
             (case file_ext_of fname of
                Inl e \<Rightarrow> showerror ''Failed to render document'' e s
              | Inr file_ext \<Rightarrow>
                  (case mkstemp E (disk s) file_ext of
                     Inl e \<Rightarrow> showerror ''Failed to render document'' e s
                   | Inr temp_path \<Rightarrow>
                       (let s' = s\<lparr>disk := (disk s)(temp_path \<mapsto> file_data),
                                     temp_files := temp_files s @ [temp_path],
                                     current_doc_name := (case fname of JStr f \<Rightarrow> f | other \<Rightarrow> [])\<rparr>
                        in if file_ext \<in> set image_exts then render_image E temp_path s'
                           else if file_ext = ''.pdf'' then render_pdf E temp_path s'
                           else s'\<lparr>value_display := unsupported_message file_ext,
                                   notebook_tab := 0\<rparr>))))"

text \<open>
  \<^verbatim>\<open>get_document_index\<close> (lines 216 to 221). \<^verbatim>\<open>x.index(filename)\<close> is the first
  position of an equal element of a list, or the first position at which
  \<^verbatim>\<open>filename\<close> starts in a string; other values have no such method.
  \<^verbatim>\<open>KeyError\<close> and \<^verbatim>\<open>ValueError\<close> give \<^verbatim>\<open>None\<close>.
\<close>

fun index_of :: "('a \<Rightarrow> bool) \<Rightarrow> 'a list \<Rightarrow> nat option" where
  "index_of P [] = None"
| "index_of P (x # xs) = (if P x then Some 0 else map_option Suc (index_of P xs))"

fun find_sub :: "string \<Rightarrow> string \<Rightarrow> nat option" where
  "find_sub sub [] = (if sub = [] then Some 0 else None)"
| "find_sub sub (c # cs) =
     (if starts_with sub (c # cs) then Some 0 else map_option Suc (find_sub sub cs))"

fun is_str :: "string \<Rightarrow> 'f json \<Rightarrow> bool" where
  "is_str s (JStr t) = (t = s)"
| "is_str s v = False"

fun py_index :: "'f json \<Rightarrow> string \<Rightarrow> exn + nat" where
  "py_index (JArr xs) fname =
     (case index_of (is_str fname) xs of None \<Rightarrow> Inl ValueError | Some i \<Rightarrow> Inr i)"
| "py_index (JStr s) fname =
     (case find_sub fname s of None \<Rightarrow> Inl ValueError | Some i \<Rightarrow> Inr i)"
| "py_index v fname = Inl AttributeError"

definition get_document_index :: "'f json \<Rightarrow> string \<Rightarrow> exn + nat option" where
  "get_document_index cj fname =
     (case and_then (getitem_str cj names_key) (\<lambda>names. py_index names fname) of
        Inr i \<Rightarrow> Inr (Some i)
      | Inl ValueError \<Rightarrow> Inr None
      | Inl KeyError \<Rightarrow> Inr None
      | Inl e \<Rightarrow> Inl e)"

text \<open>
  \<^verbatim>\<open>save_current_document\<close> (lines 223 to 249); \<open>save_path\<close> is what the file dialog
  returns (empty when cancelled). The file is opened (and so emptied) before the payload
  is decoded. When \<^verbatim>\<open>get_document_index\<close> returns \<^verbatim>\<open>None\<close> the \<^verbatim>\<open>if\<close> of line 239
  has no \<^verbatim>\<open>else\<close>: nothing is written and nothing is reported.
\<close>

definition save_current_document :: "env \<Rightarrow> string \<Rightarrow> 'f app \<Rightarrow> 'f app" where
  "save_current_document E save_path s =
     (if current_doc_name s = [] then s
      else if save_path = [] then s
      else
        (case get_document_index (current_json s) (current_doc_name s) of
           Inl e \<Rightarrow> showerror ''Failed to save document'' e s
         | Inr None \<Rightarrow> s
         | Inr (Some doc_index) \<Rightarrow>
             (case and_then (getitem_str (current_json s) payloads_key)
                     (\<lambda>payloads. getitem_int payloads (int doc_index)) of
                Inl e \<Rightarrow> showerror ''Failed to save document'' e s
              | Inr base64_data \<Rightarrow>
                  if \<not> open_wb_ok E save_path
                  then showerror ''Failed to save document'' OSError s
                  else
                    (case py_b64decode E base64_data of
                       Inl e \<Rightarrow>
                         showerror ''Failed to save document'' e
                           (s\<lparr>disk := (disk s)(save_path \<mapsto> [])\<rparr>)
                     | Inr content \<Rightarrow>
                         s\<lparr>disk := (disk s)(save_path \<mapsto> content),
                           dialogs := dialogs s @ [ShowInfo ''Document saved successfully!'']\<rparr>))))"

text \<open>
  The state after \<^verbatim>\<open>__init__\<close> (lines 36 to 38 and 446 to 449) on a given file
  system, and a concrete environment for the instances below: two payloads decode, a
  temporary file gets the first free one of two names, every file can be written, any
  bytes are an image and a PDF of two pages. Removal succeeds in \<open>env_ok\<close> and fails
  in \<open>env_locked\<close>.
\<close>

definition initial_app :: "(string \<Rightarrow> bytes option) \<Rightarrow> 'f app" where
  "initial_app d =
     \<lparr>current_json = JObj [], temp_files = [], disk = d, current_document = NoDocument,
      current_page = 0, total_pages = 0, current_doc_name = [], value_display = [],
      notebook_tab = 0, page_label = ''Page: 0/0'', prev_enabled = True,
      next_enabled = True, dialogs = []\<rparr>"

definition env_ok :: env where
  "env_ok =
     \<lparr>b64decode = (\<lambda>s. if s = ''QQ=='' then Inr [65] else if s = ''Qg=='' then Inr [66]
                         else Inl ValueError),
      mkstemp = (\<lambda>d sfx. Inr (if d (''/t0'' @ sfx) = None then ''/t0'' @ sfx else ''/t1'' @ sfx)),
      remove_ok = (\<lambda>p. True),
      open_wb_ok = (\<lambda>p. True),
      image_ok = (\<lambda>b. True),
      pdf_pages = (\<lambda>b. Some 2)\<rparr>"

definition env_locked :: env where
  "env_locked = env_ok\<lparr>remove_ok := (\<lambda>p. False)\<rparr>"

definition fresh_app :: "unit app" where
  "fresh_app = initial_app (\<lambda>p. None)"

definition saving_app :: "string \<Rightarrow> unit app" where
  "saving_app name =
     (initial_app (\<lambda>p. None))\<lparr>current_json := JObj example_entries, current_doc_name := name\<rparr>"

section \<open>Properties of path resolution\<close>

lemma split_not_Nil: "split sep s \<noteq> []"
  by (induction s) (auto split: list.splits)

lemma split_append_sep: "split sep (a @ sep # b) = split sep a @ split sep b"
proof (induction a)
  case Nil
  show ?case by simp
next
  case (Cons x xs)
  obtain w ws where e: "split sep xs = w # ws"
    using split_not_Nil[of sep xs] by (cases "split sep xs") auto
  show ?case
  proof (cases "x = sep")
    case True
    with Cons show ?thesis by simp
  next
    case False
    with Cons e show ?thesis by simp
  qed
qed

lemma split_no_sep: "sep \<notin> set s \<Longrightarrow> split sep s = [s]"
  by (induction s) auto

lemma walk_skips_empty: "walk v parts = walk v (filter (\<lambda>p. p \<noteq> []) parts)"
proof (induction parts arbitrary: v)
  case Nil
  show ?case by simp
next
  case (Cons p ps)
  show ?case
  proof (cases "p = []")
    case True
    with Cons show ?thesis by simp
  next
    case False
    with Cons show ?thesis
      by (simp split: sum.splits exn.splits)
  qed
qed


lemma get_value_at_path_segments:
  "get_value_at_path doc path = walk doc (segments path)"
proof (cases "path = []")
  case True
  then show ?thesis by (simp add: get_value_at_path_def segments_def)
next
  case False
  then show ?thesis
    using walk_skips_empty[of doc "split (CHR ''/'') path"]
    by (simp add: get_value_at_path_def segments_def)
qed

lemma segments_join_path:
  assumes "seg \<noteq> []" and "CHR ''/'' \<notin> set seg"
  shows "segments (join_path path seg) = segments path @ [seg]"
proof (cases "path = []")
  case True
  with assms show ?thesis
    by (simp add: join_path_def segments_def split_no_sep)
next
  case False
  with assms show ?thesis
    by (simp add: join_path_def segments_def split_append_sep split_no_sep)
qed

lemma digit_char_decimal: "d < 10 \<Longrightarrow> is_decimal (digit_char d)"
  by (simp add: is_decimal_def digit_char_def)

lemma digit_val_digit_char: "d < 10 \<Longrightarrow> digit_val (digit_char d) = d"
  by (simp add: digit_val_def digit_char_def)

lemma str_nat_decimal: "list_all is_decimal (str_nat n)"
proof (induction n rule: str_nat.induct)
  case (1 n)
  show ?case
  proof (cases "n < 10")
    case True
    then show ?thesis by (subst str_nat.simps) (simp add: digit_char_decimal)
  next
    case False
    with 1 show ?thesis by (subst str_nat.simps) (simp add: digit_char_decimal)
  qed
qed

lemma str_nat_not_Nil: "str_nat n \<noteq> []"
  by (subst str_nat.simps) simp

lemma scan_digits_snoc:
  "list_all is_decimal s \<Longrightarrow> is_decimal d \<Longrightarrow>
   scan_digits (s @ [d]) acc = map_option (\<lambda>a. 10 * a + digit_val d) (scan_digits s acc)"
  by (induction s arbitrary: acc) auto

lemma scan_digits_str_nat: "scan_digits (str_nat n) 0 = Some n"
proof (induction n rule: str_nat.induct)
  case (1 n)
  show ?case
  proof (cases "n < 10")
    case True
    then show ?thesis
      by (subst str_nat.simps) (simp add: digit_char_decimal digit_val_digit_char)
  next
    case False
    with 1 show ?thesis
      by (subst str_nat.simps)
         (simp add: scan_digits_snoc str_nat_decimal digit_char_decimal digit_val_digit_char)
  qed
qed

lemma parse_nat_scan:
  "s \<noteq> [] \<Longrightarrow> list_all is_decimal s \<Longrightarrow> parse_nat s = scan_digits s 0"
  by (cases s) (simp_all add: parse_nat_def)

lemma decimal_not_space: "is_decimal c \<Longrightarrow> \<not> is_space c"
  by (auto simp: is_decimal_def is_space_def Let_def)

lemma strip_decimal:
  assumes "list_all is_decimal s"
  shows "strip s = s"
proof (cases s rule: rev_cases)
  case Nil
  then show ?thesis by (simp add: strip_def)
next
  case (snoc ys y)
  have a: "dropWhile is_space s = s"
    using assms decimal_not_space by (cases s) auto
  have "\<not> is_space y" using assms snoc decimal_not_space by simp
  then have "dropWhile is_space (rev s) = rev s" using snoc by simp
  with a show ?thesis by (simp add: strip_def)
qed

lemma decimal_not_sign: "is_decimal c \<Longrightarrow> c \<noteq> CHR ''-'' \<and> c \<noteq> CHR ''+''"
  by (auto simp: is_decimal_def)

lemma py_int_str_nat: "py_int (str_nat n) = Some (int n)"
proof -
  obtain c cs where s: "str_nat n = c # cs"
    using str_nat_not_Nil[of n] by (cases "str_nat n") auto
  have dec: "list_all is_decimal (c # cs)" using str_nat_decimal[of n] s by simp
  then have c: "c \<noteq> CHR ''-''" "c \<noteq> CHR ''+''" using decimal_not_sign by auto
  have "parse_nat (c # cs) = Some n"
    using parse_nat_scan[of "c # cs"] dec scan_digits_str_nat[of n] s by simp
  with c show ?thesis
    using strip_decimal[OF dec] s by (simp add: py_int_def)
qed

lemma isdigit_str_nat: "isdigit (str_nat n)"
  using str_nat_decimal[of n] str_nat_not_Nil[of n]
  by (auto simp: isdigit_def is_digit_char_def list_all_iff)

lemma slash_not_decimal: "\<not> is_decimal (CHR ''/'')"
  by (simp add: is_decimal_def)

lemma str_nat_no_slash: "CHR ''/'' \<notin> set (str_nat n)"
  using str_nat_decimal[of n] slash_not_decimal by (auto simp: list_all_iff)



lemma reaches_Nil: "reaches doc [] doc"
  by (simp add: reaches_def)

lemma reaches_walk: "reaches doc ps v \<Longrightarrow> walk doc ps = Inr v"
  using reaches_def[of doc ps v] by (metis append_Nil2 walk.simps(1))

lemma reaches_snoc:
  assumes "reaches doc ps v" and "seg \<noteq> []" and "step v seg = Inr w"
  shows "reaches doc (ps @ [seg]) w"
  unfolding reaches_def
proof
  fix qs
  have "walk doc ((ps @ [seg]) @ qs) = walk v (seg # qs)"
    using assms(1) by (simp add: reaches_def)
  also have "\<dots> = walk w qs" using assms(2,3) by simp
  finally show "walk doc ((ps @ [seg]) @ qs) = walk w qs" .
qed

lemma set_get_all_items_Cons:
  "set (get_all_items (r # rs)) = insert r (set (get_all_items (kids r)) \<union> set (get_all_items rs))"
  by (cases r) (auto simp: get_all_items_def)

lemma get_all_items_Nil: "get_all_items [] = []"
  by (simp add: get_all_items_def)

lemma step_dict:
  assumes "distinct (map fst kvs)" and "(k, v) \<in> set kvs" and "\<not> isdigit k"
  shows "step (JObj kvs) k = Inr v"
  using assms by (simp add: step_def)

lemma step_list:
  assumes "i < length xs"
  shows "step (JArr xs) (str_nat i) = Inr (xs ! i)"
  using assms by (simp add: step_def isdigit_str_nat py_int_str_nat seq_get_def)

text \<open>
  Claim C10. Path resolution ignores empty segments. The empty path yields the whole
  document. The result for any path is the result of the loop on the path's non-empty
  segments alone, so two paths with the same non-empty segments resolve alike; in
  particular a leading separator, a trailing separator and a doubled separator change
  nothing.
\<close>

theorem empty_segments_ignored:
  "get_value_at_path doc [] = Inr doc
   \<and> get_value_at_path doc path = walk doc (segments path)
   \<and> get_value_at_path doc (CHR ''/'' # path) = get_value_at_path doc path
   \<and> get_value_at_path doc (path @ ''/'') = get_value_at_path doc path
   \<and> get_value_at_path doc (p @ ''//'' @ q) = get_value_at_path doc (p @ ''/'' @ q)
   \<and> (segments p = segments q \<longrightarrow> get_value_at_path doc p = get_value_at_path doc q)"
proof -
  have lead: "segments (CHR ''/'' # path) = segments path"
    by (simp add: segments_def)
  have trail: "segments (path @ ''/'') = segments path"
    using split_append_sep[of "CHR ''/''" path "[]"] by (simp add: segments_def)
  have "split (CHR ''/'') (p @ ''//'' @ q)
        = split (CHR ''/'') p @ split (CHR ''/'') (CHR ''/'' # q)"
    using split_append_sep[of "CHR ''/''" p "CHR ''/'' # q"] by simp
  then have double: "segments (p @ ''//'' @ q) = segments (p @ ''/'' @ q)"
    using split_append_sep[of "CHR ''/''" p q] by (simp add: segments_def)
  show ?thesis
    using lead trail double
    by (simp add: get_value_at_path_segments) (simp add: segments_def)
qed

theorem empty_segments_ignored_witness:
  "segments ''a/0'' = segments ''/a//0/''
   \<and> get_value_at_path (JObj [(''a'', JArr [JInt 7])] :: unit json) ''/a//0/'' = Inr (JInt 7)"
proof -
  have s: "segments ''a/0'' = segments ''/a//0/''"
    by code_simp
  have v: "get_value_at_path (JObj [(''a'', JArr [JInt 7])] :: unit json) ''a/0'' = Inr (JInt 7)"
    by code_simp
  show ?thesis
    using s v
      empty_segments_ignored[where doc = "JObj [(''a'', JArr [JInt 7])] :: unit json"
        and p = "''a/0''" and q = "''/a//0/''"]
    by simp
qed

text \<open>
  A segment that \<^verbatim>\<open>isdigit\<close> accepts is never looked up as a key: on a dict the step
  raises \<^verbatim>\<open>KeyError\<close> (or \<^verbatim>\<open>ValueError\<close> from \<^verbatim>\<open>int\<close>), whatever the keys are.
\<close>

lemma step_digits_on_dict:
  "isdigit part \<Longrightarrow> step (JObj kvs) part = Inl KeyError \<or> step (JObj kvs) part = Inl ValueError"
  by (simp add: step_def split: option.splits)

text \<open>
  Claim C2, evaluated on the document \<^verbatim>\<open>{"0": 1}\<close> and the path \<^verbatim>\<open>0\<close>, which is the
  path that tree population stores on the node of that entry. The claim says that on an
  Object the segment is looked up as the literal key, which would find \<^verbatim>\<open>1\<close>
  (second conjunct). The code converts the segment to the integer 0, the dict has no
  such key, and the function returns \<^verbatim>\<open>None\<close>.
\<close>

theorem numeric_segment_on_object_not_found:
  "get_value_at_path (JObj [(''0'', JInt 1)] :: unit json) ''0'' = Inr JNull
   \<and> getitem_str (JObj [(''0'', JInt 1)] :: unit json) ''0'' = Inr (JInt 1)
   \<and> map pathval (populate_tree (\<lambda>u. []) (JObj [(''0'', JInt 1)] :: unit json) []) = [''0'']"
  by code_simp

text \<open>
  Claim C7, evaluated on the document \<^verbatim>\<open>{"a": 1, "a/b": 2}\<close> and the path
  \<^verbatim>\<open>a/b\<close>, which tree population stores on the node of the second entry. The
  first segment reaches the integer 1; subscripting it raises \<^verbatim>\<open>TypeError\<close>, which
  the \<^verbatim>\<open>except (KeyError, IndexError)\<close> clause does not catch: the call neither returns
  a value nor returns \<^verbatim>\<open>None\<close>.
\<close>

theorem resolution_raises_type_error:
  "get_value_at_path (JObj [(''a'', JInt 1), (''a/b'', JInt 2)] :: unit json) ''a/b''
     = Inl TypeError
   \<and> map pathval (populate_tree (\<lambda>u. []) (JObj [(''a'', JInt 1), (''a/b'', JInt 2)] :: unit json) [])
     = [''a'', ''a/b'']"
  by code_simp

section \<open>Round trip between tree population and path resolution\<close>

lemma resolves_all_Nil: "resolves_all doc []"
  by (simp add: resolves_all_def get_all_items_Nil)

lemma resolves_all_Cons:
  "resolves_all doc (r # rs) \<longleftrightarrow>
     get_value_at_path doc (pathval r) = Inr (origin r)
     \<and> resolves_all doc (kids r) \<and> resolves_all doc rs"
  by (auto simp: resolves_all_def list_all_iff set_get_all_items_Cons)

lemma reaches_join:
  assumes "reaches doc (segments path) d" and "seg \<noteq> []" and "CHR ''/'' \<notin> set seg"
    and "step d seg = Inr v"
  shows "reaches doc (segments (join_path path seg)) v"
  using reaches_snoc[OF assms(1,2,4)] segments_join_path[OF assms(2,3)] by simp

lemma reaches_resolves:
  "reaches doc (segments path) v \<Longrightarrow> get_value_at_path doc path = Inr v"
  by (simp add: get_value_at_path_segments reaches_walk)

lemma populate_resolves_aux:
  "(\<forall>doc. reaches doc (segments path) data \<longrightarrow> loaded data \<longrightarrow> plain_keys data
       \<longrightarrow> resolves_all (doc :: 'f json) (populate_tree (fstr :: 'f \<Rightarrow> string) data path))"
  "(\<forall>doc d. reaches doc (segments path') d
       \<longrightarrow> list_all (\<lambda>kv. step d (fst kv) = Inr (snd kv) \<and> plain_key (fst kv)
                              \<and> loaded (snd kv) \<and> plain_keys (snd kv)) kvs
       \<longrightarrow> resolves_all (doc :: 'f json) (populate_dict (fstr' :: 'f \<Rightarrow> string) kvs path'))"
  "(\<forall>doc d. reaches doc (segments path'') d
       \<longrightarrow> (\<forall>j<length xs. step d (str_nat (index + j)) = Inr (xs ! j))
       \<longrightarrow> list_all loaded xs \<longrightarrow> list_all plain_keys xs
       \<longrightarrow> resolves_all (doc :: 'f json) (populate_list (fstr'' :: 'f \<Rightarrow> string) xs index path''))"
proof (induction fstr data path and fstr' kvs path' and fstr'' xs index path''
       rule: populate_tree_populate_dict_populate_list.induct)
  case (1 fstr kvs path)
  show ?case
  proof (intro allI impI)
    fix doc
    assume r: "reaches doc (segments path) (JObj kvs)"
      and l: "loaded (JObj kvs)" and p: "plain_keys (JObj kvs)"
    have "list_all (\<lambda>kv. step (JObj kvs) (fst kv) = Inr (snd kv) \<and> plain_key (fst kv)
                              \<and> loaded (snd kv) \<and> plain_keys (snd kv)) kvs"
      unfolding list_all_iff
    proof
      fix kv assume kv: "kv \<in> set kvs"
      obtain k v where e: "kv = (k, v)" by (cases kv)
      have pk: "plain_key k" "plain_keys v" using p kv e by (auto simp: list_all_iff)
      have lv: "loaded v" using l kv e by (auto simp: list_all_iff)
      have d: "distinct (map fst kvs)" using l by simp
      have "step (JObj kvs) k = Inr v"
        using step_dict[OF d, of k v] kv e pk(1) by (simp add: plain_key_def)
      then show "step (JObj kvs) (fst kv) = Inr (snd kv) \<and> plain_key (fst kv)
                   \<and> loaded (snd kv) \<and> plain_keys (snd kv)"
        using e pk lv by simp
    qed
    with 1 r show "resolves_all doc (populate_tree fstr (JObj kvs) path)" by simp
  qed
next
  case (2 fstr xs path)
  show ?case
  proof (intro allI impI)
    fix doc
    assume r: "reaches doc (segments path) (JArr xs)"
      and l: "loaded (JArr xs)" and p: "plain_keys (JArr xs)"
    have "\<forall>j<length xs. step (JArr xs) (str_nat (0 + j)) = Inr (xs ! j)"
      by (simp add: step_list)
    with 2 r l p show "resolves_all doc (populate_tree fstr (JArr xs) path)" by simp
  qed
next
  case (5 fstr key v rest path)
  show ?case
  proof (intro allI impI)
    fix doc d
    assume r: "reaches doc (segments path) d"
      and a: "list_all (\<lambda>kv. step d (fst kv) = Inr (snd kv) \<and> plain_key (fst kv)
                              \<and> loaded (snd kv) \<and> plain_keys (snd kv)) ((key, v) # rest)"
    from a have s: "step d key = Inr v" and pk: "plain_key key"
      and lv: "loaded v" and pv: "plain_keys v" by simp_all
    have rv: "reaches doc (segments (join_path path key)) v"
      using reaches_join[OF r _ _ s] pk by (simp add: plain_key_def)
    have k: "resolves_all doc (populate_tree fstr v (join_path path key))"
      using 5(1) rv lv pv by simp
    have t: "resolves_all doc (populate_dict fstr rest path)"
      using 5(2) r a by simp
    show "resolves_all doc (populate_dict fstr ((key, v) # rest) path)"
      using k t reaches_resolves[OF rv] by (simp add: resolves_all_Cons)
  qed
next
  case (7 fstr v rest index path)
  show ?case
  proof (intro allI impI)
    fix doc d
    assume r: "reaches doc (segments path) d"
      and a: "\<forall>j<length (v # rest). step d (str_nat (index + j)) = Inr ((v # rest) ! j)"
      and l: "list_all loaded (v # rest)" and p: "list_all plain_keys (v # rest)"
    from a have s: "step d (str_nat index) = Inr v" by force
    have rv: "reaches doc (segments (join_path path (str_nat index))) v"
      using reaches_join[OF r str_nat_not_Nil str_nat_no_slash s] .
    have k: "resolves_all doc (populate_tree fstr v (join_path path (str_nat index)))"
      using 7(1) rv l p by simp
    have "\<forall>j<length rest. step d (str_nat (index + 1 + j)) = Inr (rest ! j)"
    proof (intro allI impI)
      fix j assume "j < length rest"
      then have "step d (str_nat (index + Suc j)) = Inr ((v # rest) ! Suc j)"
        using a by (metis Suc_less_eq length_Cons)
      then show "step d (str_nat (index + 1 + j)) = Inr (rest ! j)" by simp
    qed
    then have t: "resolves_all doc (populate_list fstr rest (index + 1) path)"
      using 7(2) r l p by simp
    show "resolves_all doc (populate_list fstr (v # rest) index path)"
      using k t reaches_resolves[OF rv] by (simp add: resolves_all_Cons)
  qed
qed (simp_all add: resolves_all_Cons resolves_all_Nil reaches_resolves)

text \<open>
  Claim C1, amended. Let the document be one that \<^verbatim>\<open>json.load\<close> can return, and let
  every key of every dict in it be non-empty, free of \<^verbatim>\<open>/\<close> and not accepted by
  \<^verbatim>\<open>isdigit\<close>. Then for every item that \<^verbatim>\<open>populate_tree("", current_json)\<close> creates,
  \<^verbatim>\<open>get_value_at_path\<close> applied to the path stored on the item returns the value the
  item was built from.
\<close>

theorem populated_paths_resolve:
  assumes "loaded doc" and "plain_keys doc"
  shows "\<forall>n \<in> set (get_all_items (populate_tree fstr doc [])).
           get_value_at_path doc (pathval n) = Inr (origin n)"
proof -
  have "reaches doc (segments []) doc"
    by (simp add: segments_def reaches_Nil)
  then have "resolves_all doc (populate_tree fstr doc [])"
    using populate_resolves_aux(1)[of "[]" doc fstr] assms by simp
  then show ?thesis by (simp add: resolves_all_def list_all_iff)
qed

theorem populated_paths_resolve_witness:
  "loaded (JObj [(''a'', JArr [JInt 10, JStr ''x'']), (''b'', JNull)] :: unit json)
   \<and> plain_keys (JObj [(''a'', JArr [JInt 10, JStr ''x'']), (''b'', JNull)] :: unit json)
   \<and> map pathval (get_all_items (populate_tree (\<lambda>u. [])
          (JObj [(''a'', JArr [JInt 10, JStr ''x'']), (''b'', JNull)] :: unit json) []))
       = [''a'', ''b'', ''a/0'', ''a/1'', ''a/0'', ''a/1'', ''b'']
   \<and> list_all (\<lambda>n. get_value_at_path
                      (JObj [(''a'', JArr [JInt 10, JStr ''x'']), (''b'', JNull)]) (pathval n)
                    = Inr (origin n))
        (get_all_items (populate_tree (\<lambda>u. [])
          (JObj [(''a'', JArr [JInt 10, JStr ''x'']), (''b'', JNull)] :: unit json) []))"
proof -
  let ?doc = "JObj [(''a'', JArr [JInt 10, JStr ''x'']), (''b'', JNull)] :: unit json"
  have l: "loaded ?doc" by code_simp
  have p: "plain_keys ?doc" by code_simp
  have m: "map pathval (get_all_items (populate_tree (\<lambda>u. []) ?doc []))
             = [''a'', ''b'', ''a/0'', ''a/1'', ''a/0'', ''a/1'', ''b'']"
    by code_simp
  show ?thesis
    using l p m populated_paths_resolve[OF l p, of "\<lambda>u. []"]
    by (simp only: list_all_iff)
qed

text \<open>
  Claim C1 as stated fails. The loaded document \<^verbatim>\<open>{"a/b": 1}\<close> gets one entry node
  with the path \<^verbatim>\<open>a/b\<close>, built from 1; resolution splits that path into \<^verbatim>\<open>a\<close> and
  \<^verbatim>\<open>b\<close>, finds no key \<^verbatim>\<open>a\<close> and returns \<^verbatim>\<open>None\<close>. The loaded document
  \<^verbatim>\<open>{"": 1}\<close> gets one entry node with the empty path, built from 1; the empty path
  resolves to the whole document.
\<close>

theorem populated_path_does_not_resolve:
  "loaded (JObj [(''a/b'', JInt 1)] :: unit json)
   \<and> map pathval (populate_tree (\<lambda>u. []) (JObj [(''a/b'', JInt 1)] :: unit json) []) = [''a/b'']
   \<and> map origin (populate_tree (\<lambda>u. []) (JObj [(''a/b'', JInt 1)] :: unit json) []) = [JInt 1]
   \<and> get_value_at_path (JObj [(''a/b'', JInt 1)] :: unit json) ''a/b'' = Inr JNull
   \<and> loaded (JObj [([], JInt 1)] :: unit json)
   \<and> map pathval (populate_tree (\<lambda>u. []) (JObj [([], JInt 1)] :: unit json) []) = [[]]
   \<and> map origin (populate_tree (\<lambda>u. []) (JObj [([], JInt 1)] :: unit json) []) = [JInt 1]
   \<and> get_value_at_path (JObj [([], JInt 1)] :: unit json) [] = Inr (JObj [([], JInt 1)])"
  by code_simp

section \<open>Properties of the search\<close>

lemma starts_with_iff: "starts_with sub s \<longleftrightarrow> (\<exists>v. s = sub @ v)"
  unfolding starts_with_def
  by (metis append_eq_conv_conj append_take_drop_id)

lemma contains_iff: "contains sub s \<longleftrightarrow> (\<exists>u v. s = u @ sub @ v)"
proof (induction s)
  case Nil
  show ?case by auto
next
  case (Cons c cs)
  show ?case
  proof
    assume "contains sub (c # cs)"
    then consider "starts_with sub (c # cs)" | "contains sub cs" by auto
    then show "\<exists>u v. c # cs = u @ sub @ v"
    proof cases
      case 1
      then obtain v where "c # cs = sub @ v" using starts_with_iff by blast
      then have "c # cs = [] @ sub @ v" by simp
      then show ?thesis by blast
    next
      case 2
      then obtain u v where "cs = u @ sub @ v" using Cons by blast
      then have "c # cs = (c # u) @ sub @ v" by simp
      then show ?thesis by blast
    qed
  next
    assume "\<exists>u v. c # cs = u @ sub @ v"
    then obtain u v where e: "c # cs = u @ sub @ v" by blast
    show "contains sub (c # cs)"
    proof (cases u)
      case Nil
      with e have "starts_with sub (c # cs)" using starts_with_iff by auto
      then show ?thesis by simp
    next
      case (Cons a u')
      with e have "cs = u' @ sub @ v" by simp
      then have "contains sub cs" using Cons.IH by blast
      then show ?thesis by simp
    qed
  qed
qed

lemma items_below_clear: "items_below (clear_tags n) = map clear_tags (items_below n)"
proof (induction n)
  case (Item t p tg v children)
  then have h: "map (items_below \<circ> clear_tags) children
                = map (map clear_tags \<circ> items_below) children"
    by simp
  have "items_below (clear_tags (Item t p tg v children))
        = map clear_tags children @ concat (map (items_below \<circ> clear_tags) children)"
    by simp
  also have "\<dots> = map clear_tags children
                    @ concat (map (map clear_tags \<circ> items_below) children)"
    by (simp only: h)
  also have "\<dots> = map clear_tags (items_below (Item t p tg v children))"
    by (simp add: map_concat)
  finally show ?case .
qed

lemma items_below_search:
  "items_below (search_in_tree q n) = map (search_in_tree q) (items_below n)"
proof (induction n)
  case (Item t p tg v children)
  then have h: "map (items_below \<circ> search_in_tree q) children
                = map (map (search_in_tree q) \<circ> items_below) children"
    by simp
  have "items_below (search_in_tree q (Item t p tg v children))
        = map (search_in_tree q) children
          @ concat (map (items_below \<circ> search_in_tree q) children)"
    by simp
  also have "\<dots> = map (search_in_tree q) children
                    @ concat (map (map (search_in_tree q) \<circ> items_below) children)"
    by (simp only: h)
  also have "\<dots> = map (search_in_tree q) (items_below (Item t p tg v children))"
    by (simp add: map_concat)
  finally show ?case .
qed

lemma get_all_items_clear:
  "get_all_items (map clear_tags roots) = map clear_tags (get_all_items roots)"
  by (simp add: get_all_items_def map_concat items_below_clear comp_def)

lemma get_all_items_search:
  "get_all_items (map (search_in_tree q) roots) = map (search_in_tree q) (get_all_items roots)"
  by (simp add: get_all_items_def map_concat items_below_search comp_def)

lemma label_clear: "label (clear_tags n) = label n" by (cases n) simp
lemma pathval_clear: "pathval (clear_tags n) = pathval n" by (cases n) simp
lemma tags_clear: "tags (clear_tags n) = []" by (cases n) simp
lemma label_search: "label (search_in_tree q n) = label n" by (cases n) simp
lemma pathval_search: "pathval (search_in_tree q n) = pathval n" by (cases n) simp
lemma tags_search:
  "tags (search_in_tree q n) = (if contains q (lower (label n)) then [''search_match''] else tags n)"
  by (cases n) simp

lemma lower_Nil_iff: "lower q = [] \<longleftrightarrow> q = []"
  by (simp add: lower_def)

lemma get_all_items_on_search_change:
  "get_all_items (on_search_change q roots) =
     (if q = [] then map clear_tags (get_all_items roots)
      else map (search_in_tree (lower q)) (map clear_tags (get_all_items roots)))"
proof -
  have "get_all_items (map (search_in_tree (lower q)) (map clear_tags roots))
        = map (search_in_tree (lower q)) (map clear_tags (get_all_items roots))"
    by (simp only: get_all_items_search get_all_items_clear)
  then show ?thesis
    by (simp add: on_search_change_def Let_def lower_Nil_iff get_all_items_clear
        del: map_map)
qed

text \<open>
  Claim C6. After \<^verbatim>\<open>on_search_change\<close> with a non-empty query \<open>q\<close>, the items that
  carry the tag \<^verbatim>\<open>search_match\<close> are exactly the items whose lower-cased text has
  the lower-cased query as a substring; after it with the empty query no item carries
  the tag. In both cases the items keep their texts and paths (third and fourth
  conjunct), so the items before and after are the same nodes.
\<close>

theorem search_tags_exactly_the_matches:
  "(q \<noteq> [] \<longrightarrow>
      {n \<in> set (get_all_items (on_search_change q roots)). ''search_match'' \<in> set (tags n)}
      = {n \<in> set (get_all_items (on_search_change q roots)).
           \<exists>u v. lower (label n) = u @ lower q @ v})
   \<and> {n \<in> set (get_all_items (on_search_change [] roots)). ''search_match'' \<in> set (tags n)} = {}
   \<and> map label (get_all_items (on_search_change q roots)) = map label (get_all_items roots)
   \<and> map pathval (get_all_items (on_search_change q roots)) = map pathval (get_all_items roots)"
proof (intro conjI impI)
  assume q: "q \<noteq> []"
  show "{n \<in> set (get_all_items (on_search_change q roots)). ''search_match'' \<in> set (tags n)}
      = {n \<in> set (get_all_items (on_search_change q roots)).
           \<exists>u v. lower (label n) = u @ lower q @ v}"
  proof -
    have "\<And>n. n \<in> set (get_all_items (on_search_change q roots)) \<Longrightarrow>
            (''search_match'' \<in> set (tags n)) = contains (lower q) (lower (label n))"
      using q
      by (auto simp: get_all_items_on_search_change tags_search tags_clear label_search
          label_clear split: if_splits)
    then show ?thesis unfolding contains_iff by blast
  qed
next
  show "{n \<in> set (get_all_items (on_search_change [] roots)). ''search_match'' \<in> set (tags n)} = {}"
    by (auto simp: get_all_items_on_search_change tags_clear)
next
  show "map label (get_all_items (on_search_change q roots)) = map label (get_all_items roots)"
    by (simp add: get_all_items_on_search_change label_search label_clear comp_def)
next
  show "map pathval (get_all_items (on_search_change q roots)) = map pathval (get_all_items roots)"
    by (simp add: get_all_items_on_search_change pathval_search pathval_clear comp_def)
qed

theorem search_tags_exactly_the_matches_witness:
  "''b.PDF'' \<noteq> []
   \<and> map (\<lambda>n. (label n, tags n)) (get_all_items (on_search_change ''b.PDF'' example_forest))
       = [(''names'', []), (''[0]'', []), (''[1]'', []), (''a.png'', []),
          (''B.pdf'', [''search_match''])]
   \<and> {n \<in> set (get_all_items (on_search_change ''b.PDF'' example_forest)).
          ''search_match'' \<in> set (tags n)}
       = {n \<in> set (get_all_items (on_search_change ''b.PDF'' example_forest)).
            \<exists>u v. lower (label n) = u @ lower ''b.PDF'' @ v}"
proof -
  have q: "''b.PDF'' \<noteq> []" by simp
  have m: "map (\<lambda>n. (label n, tags n))
             (get_all_items (on_search_change ''b.PDF'' example_forest))
           = [(''names'', []), (''[0]'', []), (''[1]'', []), (''a.png'', []),
              (''B.pdf'', [''search_match''])]"
    by code_simp
  show ?thesis
    using q m search_tags_exactly_the_matches[of "''b.PDF''" example_forest]
    by blast
qed

section \<open>Properties of document routing\<close>

text \<open>
  \<^verbatim>\<open>int\<close> does not drop the separator with code point 28: the string of that
  character and \<^verbatim>\<open>0\<close> is not an integer.
\<close>

lemma py_int_keeps_separator: "py_int [CHR 0x1C, CHR ''0''] = None"
  by code_simp





section \<open>Properties of the document view\<close>

lemma remove_all_None: "d p = None \<Longrightarrow> remove_all E ps d p = None"
  by (induction ps arbitrary: d) auto

lemma remove_all_removed:
  "p \<in> set ps \<Longrightarrow> remove_ok E p \<Longrightarrow> remove_all E ps d p = None"
proof (induction ps arbitrary: d)
  case Nil
  then show ?case by simp
next
  case (Cons q qs)
  show ?case
  proof (cases "q = p")
    case True
    with Cons.prems show ?thesis by (simp add: remove_all_None)
  next
    case False
    with Cons show ?thesis by simp
  qed
qed

lemma remove_all_kept:
  "\<not> remove_ok E p \<Longrightarrow> remove_all E ps d p = d p"
  by (induction ps arbitrary: d) auto

lemma update_page_controls_files:
  "disk (update_page_controls s) = disk s" "temp_files (update_page_controls s) = temp_files s"
  by (simp_all add: update_page_controls_def)

lemma showerror_files:
  "disk (showerror m e s) = disk s" "temp_files (showerror m e s) = temp_files s"
  by (simp_all add: showerror_def)

lemma show_current_page_files:
  "disk (show_current_page s) = disk s" "temp_files (show_current_page s) = temp_files s"
  by (simp_all add: show_current_page_def update_page_controls_files showerror_files
      split: backend.splits)

lemma render_pdf_files:
  "disk (render_pdf E p s) = disk s" "temp_files (render_pdf E p s) = temp_files s"
  by (simp_all add: render_pdf_def show_current_page_files showerror_files split: option.splits)

lemma render_image_files:
  "disk (render_image E p s) = disk s" "temp_files (render_image E p s) = temp_files s"
  by (simp_all add: render_image_def update_page_controls_files showerror_files
      split: option.splits)

lemma render_document_files:
  assumes "py_b64decode E b = Inr content" and "file_ext_of f = Inr x"
    and "mkstemp E (disk (cleanup_temp_files E s)) x = Inr p"
  shows "temp_files (render_document E b f s) = [p]"
    and "disk (render_document E b f s) = (remove_all E (temp_files s) (disk s))(p \<mapsto> content)"
  using assms
  by (simp_all add: render_document_def Let_def cleanup_temp_files_def render_image_files
      render_pdf_files)

text \<open>
  Whatever the state before and however the open ends, at most one temporary file is
  tracked after \<^verbatim>\<open>render_document\<close>.
\<close>

lemma render_document_tracks_at_most_one:
  "length (temp_files (render_document E b f s)) \<le> 1"
  by (simp add: render_document_def Let_def cleanup_temp_files_def render_image_files
      render_pdf_files showerror_files split: sum.splits)

text \<open>
  Claim C5, amended. \<^verbatim>\<open>cleanup_temp_files\<close> leaves no path tracked, and
  \<^verbatim>\<open>render_document\<close> runs it before it decodes or creates anything. Take two opens
  in a row that both get as far as creating their temporary file (\<open>p1\<close>, then \<open>p2\<close>).
  After the first, exactly \<open>p1\<close> is tracked; after the second, exactly \<open>p2\<close> is
  tracked and \<open>p2\<close> holds the bytes decoded by the second open. The first file is gone
  from the disk if its removal succeeds; if the removal fails, the failure is caught and
  the file is still on the disk with its content, untracked.
\<close>

theorem second_open_replaces_first:
  assumes "py_b64decode E b1 = Inr d1" and "file_ext_of f1 = Inr x1"
    and "mkstemp E (disk (cleanup_temp_files E s0)) x1 = Inr p1"
    and "py_b64decode E b2 = Inr d2" and "file_ext_of f2 = Inr x2"
    and "mkstemp E (disk (cleanup_temp_files E (render_document E b1 f1 s0))) x2 = Inr p2"
  shows "temp_files (cleanup_temp_files E s) = []
       \<and> temp_files (render_document E b1 f1 s0) = [p1]
       \<and> temp_files (render_document E b2 f2 (render_document E b1 f1 s0)) = [p2]
       \<and> disk (render_document E b2 f2 (render_document E b1 f1 s0)) p2 = Some d2
       \<and> (remove_ok E p1 \<and> p1 \<noteq> p2
            \<longrightarrow> disk (render_document E b2 f2 (render_document E b1 f1 s0)) p1 = None)
       \<and> (\<not> remove_ok E p1 \<and> p1 \<noteq> p2
            \<longrightarrow> disk (render_document E b2 f2 (render_document E b1 f1 s0)) p1 = Some d1)"
proof -
  let ?s1 = "render_document E b1 f1 s0"
  let ?s2 = "render_document E b2 f2 ?s1"
  have t1: "temp_files ?s1 = [p1]"
    and k1: "disk ?s1 = (remove_all E (temp_files s0) (disk s0))(p1 \<mapsto> d1)"
    using render_document_files[OF assms(1,2,3)] by simp_all
  have t2: "temp_files ?s2 = [p2]"
    and k2: "disk ?s2 = (remove_all E (temp_files ?s1) (disk ?s1))(p2 \<mapsto> d2)"
    using render_document_files[OF assms(4,5,6)] by simp_all
  have a: "remove_ok E p1 \<and> p1 \<noteq> p2 \<longrightarrow> disk ?s2 p1 = None"
    using k2 t1 by (simp add: remove_all_removed)
  have b: "\<not> remove_ok E p1 \<and> p1 \<noteq> p2 \<longrightarrow> disk ?s2 p1 = Some d1"
    using k2 k1 by (simp add: remove_all_kept)
  have c: "disk ?s2 p2 = Some d2" using k2 by simp
  show ?thesis using t1 t2 a b c by (simp add: cleanup_temp_files_def)
qed

theorem second_open_replaces_first_witness:
  "py_b64decode env_ok (JStr ''QQ=='' :: unit json) = Inr [65]
   \<and> file_ext_of (JStr ''a.png'' :: unit json) = Inr ''.png''
   \<and> mkstemp env_ok (disk (cleanup_temp_files env_ok fresh_app)) ''.png'' = Inr ''/t0.png''
   \<and> py_b64decode env_ok (JStr ''Qg=='' :: unit json) = Inr [66]
   \<and> file_ext_of (JStr ''n.pdf'' :: unit json) = Inr ''.pdf''
   \<and> mkstemp env_ok
        (disk (cleanup_temp_files env_ok
           (render_document env_ok (JStr ''QQ=='') (JStr ''a.png'') fresh_app))) ''.pdf''
       = Inr ''/t0.pdf''
   \<and> remove_ok env_ok ''/t0.png''
   \<and> ''/t0.png'' \<noteq> ''/t0.pdf''
   \<and> temp_files (render_document env_ok (JStr ''Qg=='') (JStr ''n.pdf'')
         (render_document env_ok (JStr ''QQ=='') (JStr ''a.png'') fresh_app)) = [''/t0.pdf'']
   \<and> disk (render_document env_ok (JStr ''Qg=='') (JStr ''n.pdf'')
         (render_document env_ok (JStr ''QQ=='') (JStr ''a.png'') fresh_app)) ''/t0.pdf''
       = Some [66]
   \<and> disk (render_document env_ok (JStr ''Qg=='') (JStr ''n.pdf'')
         (render_document env_ok (JStr ''QQ=='') (JStr ''a.png'') fresh_app)) ''/t0.png''
       = None"
proof -
  have h1: "py_b64decode env_ok (JStr ''QQ=='' :: unit json) = Inr [65]"
    by (simp add: env_ok_def)
  have h2: "file_ext_of (JStr ''a.png'' :: unit json) = Inr ''.png''"
    by code_simp
  have h3: "mkstemp env_ok (disk (cleanup_temp_files env_ok fresh_app)) ''.png'' = Inr ''/t0.png''"
    by (simp add: env_ok_def cleanup_temp_files_def fresh_app_def initial_app_def)
  have h4: "py_b64decode env_ok (JStr ''Qg=='' :: unit json) = Inr [66]"
    by (simp add: env_ok_def)
  have h5: "file_ext_of (JStr ''n.pdf'' :: unit json) = Inr ''.pdf''"
    by code_simp
  have d1: "disk (render_document env_ok (JStr ''QQ=='') (JStr ''a.png'') fresh_app)
            = (remove_all env_ok (temp_files fresh_app) (disk fresh_app))(''/t0.png'' \<mapsto> [65])"
    using render_document_files(2)[OF h1 h2 h3] .
  have t1: "temp_files (render_document env_ok (JStr ''QQ=='') (JStr ''a.png'') fresh_app)
            = [''/t0.png'']"
    using render_document_files(1)[OF h1 h2 h3] .
  have h6: "mkstemp env_ok
              (disk (cleanup_temp_files env_ok
                 (render_document env_ok (JStr ''QQ=='') (JStr ''a.png'') fresh_app))) ''.pdf''
            = Inr ''/t0.pdf''"
    by (simp add: cleanup_temp_files_def d1 t1)
       (simp add: env_ok_def fresh_app_def initial_app_def)
  have r: "remove_ok env_ok ''/t0.png''" by (simp add: env_ok_def)
  have n: "''/t0.png'' \<noteq> ''/t0.pdf''" by simp
  show ?thesis
    using h1 h2 h3 h4 h5 h6 r n
      second_open_replaces_first[OF h1 h2 h3 h4 h5 h6, where s = fresh_app]
    by simp
qed

text \<open>
  Claim C5 as stated fails where the operating system refuses the removal (as it does
  for a file that is still open): after two opens only the second file is tracked, but
  the first file is still on the disk.
\<close>

theorem failed_removal_leaves_first_file:
  "temp_files (render_document env_locked (JStr ''QQ=='') (JStr ''a.png'') fresh_app)
     = [''/t0.png'']
   \<and> temp_files (render_document env_locked (JStr ''Qg=='') (JStr ''n.pdf'')
         (render_document env_locked (JStr ''QQ=='') (JStr ''a.png'') fresh_app)) = [''/t0.pdf'']
   \<and> disk (render_document env_locked (JStr ''Qg=='') (JStr ''n.pdf'')
         (render_document env_locked (JStr ''QQ=='') (JStr ''a.png'') fresh_app)) ''/t0.png''
       = Some [65]
   \<and> disk (render_document env_locked (JStr ''Qg=='') (JStr ''n.pdf'')
         (render_document env_locked (JStr ''QQ=='') (JStr ''a.png'') fresh_app)) ''/t0.pdf''
       = Some [66]"
  by code_simp

text \<open>
  Claim C8, amended. For an open whose payload decodes and whose file extension is
  neither an image extension nor \<^verbatim>\<open>.pdf\<close>, the temporary file is created all the
  same (it is written before the extension is looked at): it is the one tracked path
  and holds the decoded bytes. No backend is opened: \<^verbatim>\<open>current_document\<close>,
  \<^verbatim>\<open>current_page\<close> and \<^verbatim>\<open>total_pages\<close> keep their values and no message box is
  raised. The text view shows the fallback message and is selected.
\<close>

theorem unsupported_document_still_gets_temp_file:
  assumes "py_b64decode E b = Inr content" and "file_ext_of f = Inr x"
    and "x \<notin> set image_exts" and "x \<noteq> ''.pdf''"
    and "mkstemp E (disk (cleanup_temp_files E s)) x = Inr p"
  shows "temp_files (render_document E b f s) = [p]
       \<and> disk (render_document E b f s) p = Some content
       \<and> current_document (render_document E b f s) = current_document s
       \<and> current_page (render_document E b f s) = current_page s
       \<and> total_pages (render_document E b f s) = total_pages s
       \<and> dialogs (render_document E b f s) = dialogs s
       \<and> value_display (render_document E b f s) = unsupported_message x
       \<and> notebook_tab (render_document E b f s) = 0"
  using assms
  by (simp add: render_document_def Let_def cleanup_temp_files_def)

theorem unsupported_document_still_gets_temp_file_witness:
  "py_b64decode env_ok (JStr ''Qg=='' :: unit json) = Inr [66]
   \<and> file_ext_of (JStr ''n.txt'' :: unit json) = Inr ''.txt''
   \<and> ''.txt'' \<notin> set image_exts \<and> ''.txt'' \<noteq> ''.pdf''
   \<and> mkstemp env_ok (disk (cleanup_temp_files env_ok fresh_app)) ''.txt'' = Inr ''/t0.txt''
   \<and> temp_files (render_document env_ok (JStr ''Qg=='') (JStr ''n.txt'') fresh_app) = [''/t0.txt'']
   \<and> disk (render_document env_ok (JStr ''Qg=='') (JStr ''n.txt'') fresh_app) ''/t0.txt''
       = Some [66]
   \<and> current_document (render_document env_ok (JStr ''Qg=='') (JStr ''n.txt'') fresh_app)
       = NoDocument
   \<and> notebook_tab (render_document env_ok (JStr ''Qg=='') (JStr ''n.txt'') fresh_app) = 0"
proof -
  have h1: "py_b64decode env_ok (JStr ''Qg=='' :: unit json) = Inr [66]"
    by (simp add: env_ok_def)
  have h2: "file_ext_of (JStr ''n.txt'' :: unit json) = Inr ''.txt''"
    by code_simp
  have h3: "''.txt'' \<notin> set image_exts" by (simp add: image_exts_def)
  have h4: "''.txt'' \<noteq> ''.pdf''" by simp
  have h5: "mkstemp env_ok (disk (cleanup_temp_files env_ok fresh_app)) ''.txt'' = Inr ''/t0.txt''"
    by (simp add: env_ok_def cleanup_temp_files_def fresh_app_def initial_app_def)
  have c: "current_document fresh_app = NoDocument"
    by (simp add: fresh_app_def initial_app_def)
  show ?thesis
    using h1 h2 h3 h4 h5 c unsupported_document_still_gets_temp_file[OF h1 h2 h3 h4 h5]
    by simp
qed

text \<open>
  Claim C8 as stated fails: opening \<^verbatim>\<open>n.txt\<close> from a state with no tracked file and
  no such file on disk leaves one tracked temporary file, present on disk.
\<close>

theorem unsupported_document_has_temp_file:
  "file_ext_of (JStr ''n.txt'' :: unit json) = Inr ''.txt''
   \<and> ''.txt'' \<notin> set image_exts
   \<and> temp_files fresh_app = []
   \<and> temp_files (render_document env_ok (JStr ''Qg=='') (JStr ''n.txt'') fresh_app) = [''/t0.txt'']
   \<and> disk fresh_app ''/t0.txt'' = None
   \<and> disk (render_document env_ok (JStr ''Qg=='') (JStr ''n.txt'') fresh_app) ''/t0.txt''
       = Some [66]"
  by code_simp

text \<open>
  Claim C9, evaluated on a successful open of the image \<^verbatim>\<open>a.png\<close>: no error is
  raised, the image is the current document, \<^verbatim>\<open>total_pages\<close> is 1, but
  \<^verbatim>\<open>current_page\<close> is 1, not 0, and the label reads \<^verbatim>\<open>Page: 2/1\<close>. The PDF path
  starts at page 0 with the label \<^verbatim>\<open>Page: 1/2\<close>.
\<close>

theorem image_open_sets_page_one:
  "file_ext_of (JStr ''a.png'' :: unit json) = Inr ''.png''
   \<and> ''.png'' \<in> set image_exts
   \<and> dialogs (render_document env_ok (JStr ''QQ=='') (JStr ''a.png'') fresh_app) = []
   \<and> current_document (render_document env_ok (JStr ''QQ=='') (JStr ''a.png'') fresh_app)
       = PhotoImage
   \<and> total_pages (render_document env_ok (JStr ''QQ=='') (JStr ''a.png'') fresh_app) = 1
   \<and> current_page (render_document env_ok (JStr ''QQ=='') (JStr ''a.png'') fresh_app) = 1
   \<and> page_label (render_document env_ok (JStr ''QQ=='') (JStr ''a.png'') fresh_app)
       = ''Page: 2/1''
   \<and> current_page (render_document env_ok (JStr ''QQ=='') (JStr ''n.pdf'') fresh_app) = 0
   \<and> page_label (render_document env_ok (JStr ''QQ=='') (JStr ''n.pdf'') fresh_app)
       = ''Page: 1/2''"
  by code_simp

lemma index_of_first:
  "i < length xs \<Longrightarrow> P (xs ! i) \<Longrightarrow> (\<forall>j<i. \<not> P (xs ! j)) \<Longrightarrow> index_of P xs = Some i"
proof (induction xs arbitrary: i)
  case Nil
  then show ?case by simp
next
  case (Cons x xs)
  show ?case
  proof (cases i)
    case 0
    with Cons.prems show ?thesis by simp
  next
    case (Suc k)
    have nx: "\<not> P x" using Cons.prems(3) Suc by auto
    have "\<forall>j<k. \<not> P (xs ! j)"
    proof (intro allI impI)
      fix j assume "j < k"
      then have "Suc j < i" using Suc by simp
      then have "\<not> P ((x # xs) ! Suc j)" using Cons.prems(3) by blast
      then show "\<not> P (xs ! j)" by simp
    qed
    then have "index_of P xs = Some k"
      using Cons.IH[of k] Cons.prems(1,2) Suc by simp
    with nx Suc show ?thesis by simp
  qed
qed

lemma index_of_absent: "\<not> list_ex P xs \<Longrightarrow> index_of P xs = None"
  by (induction xs) auto

lemma is_str_iff: "is_str s v \<longleftrightarrow> v = JStr s"
  by (cases v) auto

text \<open>
  Claim C4, amended. Let a document name be set and the dialog return a path. If
  \<^verbatim>\<open>get_document_index\<close> returns \<^verbatim>\<open>None\<close>, which it does when the name is not in the
  list of names, the state does not change: nothing is written and nothing is reported.
  If \<open>i\<close> is the first index at which the list of names holds the document name, the
  payload at \<open>i\<close> is a string that decodes and the file can be opened, then the file
  holds exactly the decoded bytes afterwards and success is reported.
\<close>

theorem save_writes_decoded_payload:
  assumes "current_doc_name s \<noteq> []" and "save_path \<noteq> []"
  shows "(get_document_index (current_json s) (current_doc_name s) = Inr None
            \<longrightarrow> save_current_document E save_path s = s)
       \<and> (current_json s = JObj kvs \<and> map_of kvs names_key = Some (JArr names)
            \<and> JStr (current_doc_name s) \<notin> set names
            \<longrightarrow> get_document_index (current_json s) (current_doc_name s) = Inr None)
       \<and> (current_json s = JObj kvs \<and> map_of kvs names_key = Some (JArr names)
            \<and> map_of kvs payloads_key = Some (JArr payloads)
            \<and> i < length names \<and> names ! i = JStr (current_doc_name s)
            \<and> (\<forall>j<i. names ! j \<noteq> JStr (current_doc_name s))
            \<and> i < length payloads \<and> payloads ! i = JStr b
            \<and> open_wb_ok E save_path \<and> b64decode E b = Inr content
            \<longrightarrow> save_current_document E save_path s
                = s\<lparr>disk := (disk s)(save_path \<mapsto> content),
                    dialogs := dialogs s @ [ShowInfo ''Document saved successfully!'']\<rparr>)"
proof (intro conjI impI)
  assume "get_document_index (current_json s) (current_doc_name s) = Inr None"
  then show "save_current_document E save_path s = s"
    using assms by (simp add: save_current_document_def)
next
  assume a: "current_json s = JObj kvs \<and> map_of kvs names_key = Some (JArr names)
            \<and> JStr (current_doc_name s) \<notin> set names"
  then have "\<not> list_ex (is_str (current_doc_name s)) names"
    by (auto simp: list_ex_iff is_str_iff)
  then have "index_of (is_str (current_doc_name s)) names = None"
    by (rule index_of_absent)
  then show "get_document_index (current_json s) (current_doc_name s) = Inr None"
    using a by (simp add: get_document_index_def and_then_def)
next
  assume a: "current_json s = JObj kvs \<and> map_of kvs names_key = Some (JArr names)
            \<and> map_of kvs payloads_key = Some (JArr payloads)
            \<and> i < length names \<and> names ! i = JStr (current_doc_name s)
            \<and> (\<forall>j<i. names ! j \<noteq> JStr (current_doc_name s))
            \<and> i < length payloads \<and> payloads ! i = JStr b
            \<and> open_wb_ok E save_path \<and> b64decode E b = Inr content"
  then have "index_of (is_str (current_doc_name s)) names = Some i"
    using index_of_first[of i names "is_str (current_doc_name s)"] by (simp add: is_str_iff)
  then have g: "get_document_index (current_json s) (current_doc_name s) = Inr (Some i)"
    using a by (simp add: get_document_index_def and_then_def)
  have p: "and_then (getitem_str (current_json s) payloads_key)
             (\<lambda>payloads. getitem_int payloads (int i)) = Inr (JStr b)"
    using a by (simp add: and_then_def seq_get_def)
  show "save_current_document E save_path s
        = s\<lparr>disk := (disk s)(save_path \<mapsto> content),
            dialogs := dialogs s @ [ShowInfo ''Document saved successfully!'']\<rparr>"
    using assms a g p by (simp add: save_current_document_def)
qed

theorem save_writes_decoded_payload_witness:
  "current_doc_name (saving_app ''b.pdf'') \<noteq> [] \<and> ''/o'' \<noteq> []
   \<and> current_json (saving_app ''b.pdf'') = JObj example_entries
   \<and> map_of example_entries names_key = Some (JArr [JStr ''a.png'', JStr ''b.pdf''])
   \<and> map_of example_entries payloads_key = Some (JArr [JStr ''AA=='', JStr ''QQ==''])
   \<and> open_wb_ok env_ok ''/o'' \<and> b64decode env_ok ''QQ=='' = Inr [65]
   \<and> disk (save_current_document env_ok ''/o'' (saving_app ''b.pdf'')) ''/o'' = Some [65]
   \<and> dialogs (save_current_document env_ok ''/o'' (saving_app ''b.pdf''))
       = [ShowInfo ''Document saved successfully!'']"
proof -
  let ?names = "[JStr ''a.png'', JStr ''b.pdf''] :: unit json list"
  let ?payloads = "[JStr ''AA=='', JStr ''QQ==''] :: unit json list"
  have n: "current_doc_name (saving_app ''b.pdf'') = ''b.pdf''"
    by (simp add: saving_app_def initial_app_def)
  have j: "current_json (saving_app ''b.pdf'') = JObj example_entries"
    by (simp add: saving_app_def initial_app_def)
  have a: "current_doc_name (saving_app ''b.pdf'') \<noteq> []" using n by simp
  have b: "''/o'' \<noteq> []" by simp
  have mn: "map_of example_entries names_key = Some (JArr ?names)" by code_simp
  have mp: "map_of example_entries payloads_key = Some (JArr ?payloads)" by code_simp
  have w: "open_wb_ok env_ok ''/o''" by (simp add: env_ok_def)
  have d: "b64decode env_ok ''QQ=='' = Inr [65]" by (simp add: env_ok_def)
  have f: "\<forall>j<1. ?names ! j \<noteq> JStr (current_doc_name (saving_app ''b.pdf''))"
    using n by simp
  have "save_current_document env_ok ''/o'' (saving_app ''b.pdf'')
        = (saving_app ''b.pdf'')\<lparr>disk := (disk (saving_app ''b.pdf''))(''/o'' \<mapsto> [65]),
             dialogs := dialogs (saving_app ''b.pdf'')
                        @ [ShowInfo ''Document saved successfully!'']\<rparr>"
    using save_writes_decoded_payload[OF a b, where E = env_ok and kvs = example_entries
        and names = ?names and payloads = ?payloads and i = 1 and b = "''QQ==''"
        and content = "[65]"]
      j mn mp w d f n
    by simp
  then have "disk (save_current_document env_ok ''/o'' (saving_app ''b.pdf'')) ''/o'' = Some [65]"
    and "dialogs (save_current_document env_ok ''/o'' (saving_app ''b.pdf''))
         = [ShowInfo ''Document saved successfully!'']"
    by (simp_all add: saving_app_def initial_app_def)
  then show ?thesis using a b j mn mp w d by simp
qed

text \<open>
  Claim C4 as stated fails in its last part: with the document name \<^verbatim>\<open>c.pdf\<close>, which
  the document does not list, saving raises no message box and writes no file.
\<close>

theorem unresolved_name_is_silent:
  "current_doc_name (saving_app ''c.pdf'') = ''c.pdf''
   \<and> get_document_index (current_json (saving_app ''c.pdf'')) ''c.pdf'' = Inr None
   \<and> dialogs (saving_app ''c.pdf'') = []
   \<and> dialogs (save_current_document env_ok ''/o'' (saving_app ''c.pdf'')) = []
   \<and> disk (save_current_document env_ok ''/o'' (saving_app ''c.pdf'')) ''/o'' = None"
  by code_simp

end
